theory Spec2Isabelle
  imports Complex_Main "HOL-Library.Char_ord" "HOL-Library.List_Lexorder"
    "HOL-Library.Option_ord" "HOL-Library.Multiset"
begin

section \<open>Data model\<close>

text \<open>
  The program works on pandas data frames read from CSV files. A frame is modelled as
  the list of its rows, in file order. A numeric cell that is missing (NaN after
  \<^verbatim>\<open>pd.to_numeric(..., errors="coerce")\<close>) is \<open>None\<close>. Floating-point numbers are
  modelled as exact reals: rounding and infinities are not part of the model. Years are
  integers (the spec's data model; \<^verbatim>\<open>astype(int)\<close> is then the identity), locations,
  sexes, ages and metric labels are strings of ASCII characters (a missing label reads
  as the string \<^verbatim>\<open>nan\<close> after \<^verbatim>\<open>astype(str)\<close>).
\<close>

record keyed =
  location :: string
  year :: "int option"

text \<open>
  An IHME observation after the renaming of lines 30-38 and the numeric coercion of
  lines 39-44. The column \<^verbatim>\<open>value\<close> is called \<open>val\<close> here, its name in the CSV file. The
  columns \<^verbatim>\<open>cause\<close> and \<^verbatim>\<open>measure\<close> are never read by the program and are left out.
\<close>

record obs = keyed +
  sex :: string
  age :: string
  metric :: string
  val :: "real option"
  upper :: "real option"
  lower :: "real option"

text \<open>
  An IHME frame: its rows, and which of the optional columns the file has (the tests
  \<^verbatim>\<open>"metric" in df.columns\<close>, \<^verbatim>\<open>"upper" in df.columns\<close>, \<^verbatim>\<open>"lower" in df.columns\<close>).
\<close>

record ihme_frame =
  rows :: "obs list"
  has_metric :: bool
  has_upper :: bool
  has_lower :: bool

text \<open>
  A row of the psychiatrists frame returned by \<^verbatim>\<open>load_psychiatrists\<close> (lines 54-64: the
  columns \<^verbatim>\<open>location\<close>, \<^verbatim>\<open>year\<close>, \<^verbatim>\<open>psy_per100k\<close>, the last two coerced to numbers).
\<close>

record cap = keyed +
  psy_per100k :: "real option"

text \<open>
  A row of the frame \<^verbatim>\<open>merged\<close> of \<^verbatim>\<open>plot_actionable\<close>: the join keys, the capacity column and
  the need column \<^verbatim>\<open>value\<close> under its new name \<^verbatim>\<open>dep_prev\<close>. The other need columns (sex,
  age, metric, upper, lower) ride along unread and are left out. Line 177 adds the column
  \<^verbatim>\<open>priority_index\<close>.
\<close>

record merged = cap +
  dep_prev :: "real option"

record scored = merged +
  priority_index :: "real option"

text \<open>
  Both failures of the program are Python \<^verbatim>\<open>ValueError\<close>s, told apart by their message.
  The constructors carry the data the message prints: the two year previews, and the
  sexes present.
\<close>

datatype error =
  NoOverlapError "int list" "int list"
| MissingSexSplitError "string list"

section \<open>The library's sort\<close>

text \<open>
  \<^verbatim>\<open>sort_values\<close> is called with its default \<^verbatim>\<open>kind="quicksort"\<close>, which promises an
  ascending arrangement of the input and nothing about the order of equal keys. The
  underlying ascending sort is therefore a parameter \<open>srt\<close> of the functions that sort,
  with \<open>argsort_ok\<close> as its contract; \<open>argsort_stable\<close> says that it moreover keeps
  equal keys in input order, as an insertion sort such as \<^const>\<open>sort_key\<close> does.
\<close>

definition argsort_ok :: "(('a \<Rightarrow> 'k::linorder) \<Rightarrow> 'a list \<Rightarrow> 'a list) \<Rightarrow> bool" where
  "argsort_ok srt \<longleftrightarrow>
     (\<forall>key xs. mset (srt key xs) = mset xs \<and> sorted (map key (srt key xs)))"

definition argsort_stable :: "(('a \<Rightarrow> 'k::linorder) \<Rightarrow> 'a list \<Rightarrow> 'a list) \<Rightarrow> bool" where
  "argsort_stable srt \<longleftrightarrow>
     (\<forall>key xs k. filter (\<lambda>x. key x = k) (srt key xs) = filter (\<lambda>x. key x = k) xs)"

text \<open>
  \<^verbatim>\<open>sort_values(ascending=False)\<close>: pandas reverses the rows, sorts them ascending and
  reverses the outcome. A missing key is the least element of the option order, so it
  comes last, as \<^verbatim>\<open>na_position="last"\<close> has it.
\<close>

definition sort_values_desc ::
    "(('a \<Rightarrow> 'k::linorder) \<Rightarrow> 'a list \<Rightarrow> 'a list) \<Rightarrow> ('a \<Rightarrow> 'k) \<Rightarrow> 'a list \<Rightarrow> 'a list" where
  "sort_values_desc srt key xs = rev (srt key (rev xs))"

section \<open>Unit normalizer: \<^verbatim>\<open>load_ihme\<close>, lines 45-51\<close>

text \<open>
  \<^verbatim>\<open>str.contains("Percent", case=False, na=False)\<close>: the pattern has no regular
  expression operator, so it is a substring test that ignores the case of letters.
\<close>

definition lower_char :: "char \<Rightarrow> char" where
  "lower_char c =
     (case map_of (zip ''ABCDEFGHIJKLMNOPQRSTUVWXYZ'' ''abcdefghijklmnopqrstuvwxyz'') c of
        Some l \<Rightarrow> l
      | None \<Rightarrow> c)"

fun startswith :: "string \<Rightarrow> string \<Rightarrow> bool" where
  "startswith s [] = True"
| "startswith [] (p # ps) = False"
| "startswith (c # cs) (p # ps) = (c = p \<and> startswith cs ps)"

fun str_find :: "string \<Rightarrow> string \<Rightarrow> bool" where
  "str_find [] p = startswith [] p"
| "str_find (c # cs) p = (startswith (c # cs) p \<or> str_find cs p)"

definition str_contains_ci :: "string \<Rightarrow> string \<Rightarrow> bool" where
  "str_contains_ci s p = str_find (map lower_char s) (map lower_char p)"

text \<open>\<^verbatim>\<open>df["metric"].astype(str).str.contains("Percent", case=False, na=False).any()\<close>\<close>

definition is_percent :: "obs list \<Rightarrow> bool" where
  "is_percent rs = list_ex (\<lambda>r. str_contains_ci (metric r) ''Percent'') rs"

text \<open>
  \<^verbatim>\<open>Series.max()\<close> skips missing cells; on a column with no number at all it is NaN
  (\<open>None\<close>).
\<close>

definition series_max :: "real option list \<Rightarrow> real option" where
  "series_max vs =
     (case List.map_filter id vs of
        [] \<Rightarrow> None
      | x # xs \<Rightarrow> Some (fold max xs x))"

text \<open>\<^verbatim>\<open>df["value"].max() <= 1.0\<close>: a comparison with NaN is false.\<close>

definition max_le_one :: "obs list \<Rightarrow> bool" where
  "max_le_one rs = (case series_max (map val rs) of None \<Rightarrow> False | Some m \<Rightarrow> m \<le> 1)"

text \<open>\<^verbatim>\<open>col *= 100\<close>: a missing cell stays missing.\<close>

definition times100 :: "real option \<Rightarrow> real option" where
  "times100 v = map_option (\<lambda>x. x * 100) v"

definition rescale_row :: "bool \<Rightarrow> bool \<Rightarrow> obs \<Rightarrow> obs" where
  "rescale_row up lo r =
     r\<lparr>val := times100 (val r),
       upper := (if up then times100 (upper r) else upper r),
       lower := (if lo then times100 (lower r) else lower r)\<rparr>"

definition load_ihme :: "ihme_frame \<Rightarrow> ihme_frame" where
  "load_ihme df =
     (if has_metric df then
        (if is_percent (rows df) \<and> max_le_one (rows df)
         then df\<lparr>rows := map (rescale_row (has_upper df) (has_lower df)) (rows df)\<rparr>
         else df)
      else df)"

text \<open>The numbers observed in the value column (used to state the claims).\<close>

definition observed :: "obs list \<Rightarrow> real set" where
  "observed rs = {v. \<exists>r \<in> set rs. val r = Some v}"

section \<open>Year reconciler: \<^verbatim>\<open>choose_actionable_year\<close>, lines 77-93\<close>

text \<open>\<^verbatim>\<open>set(need_all["year"].dropna().unique().astype(int))\<close>\<close>

definition need_years :: "obs list \<Rightarrow> int set" where
  "need_years need_all = set (List.map_filter year need_all)"

text \<open>\<^verbatim>\<open>psy.dropna(subset=["psy_per100k"])\<close>\<close>

definition dropna_psy :: "cap list \<Rightarrow> cap list" where
  "dropna_psy psy = filter (\<lambda>r. psy_per100k r \<noteq> None) psy"

text \<open>
  \<^verbatim>\<open>.groupby("year")["location"].nunique()\<close>: one entry per year that is not missing, the
  years ascending, each with its number of distinct locations.
\<close>

definition nunique_location_by_year :: "cap list \<Rightarrow> (int \<times> nat) list" where
  "nunique_location_by_year rs =
     map (\<lambda>y. (y, length (remdups (map location (filter (\<lambda>r. year r = Some y) rs)))))
       (sort (remdups (List.map_filter year rs)))"

definition psy_counts ::
    "(((int \<times> nat) \<Rightarrow> nat) \<Rightarrow> (int \<times> nat) list \<Rightarrow> (int \<times> nat) list) \<Rightarrow> cap list \<Rightarrow> (int \<times> nat) list" where
  "psy_counts srt psy = sort_values_desc srt snd (nunique_location_by_year (dropna_psy psy))"

text \<open>\<^verbatim>\<open>sorted(list(set(psy['year'].dropna().unique().astype(int))))\<close> before the slice.\<close>

definition psy_years :: "cap list \<Rightarrow> int set" where
  "psy_years psy = set (List.map_filter year psy)"

definition choose_actionable_year ::
    "(((int \<times> nat) \<Rightarrow> nat) \<Rightarrow> (int \<times> nat) list \<Rightarrow> (int \<times> nat) list) \<Rightarrow> obs list \<Rightarrow> cap list \<Rightarrow> error + int" where
  "choose_actionable_year srt need_all psy =
     (let candidates = filter (\<lambda>y. y \<in> need_years need_all) (map fst (psy_counts srt psy))
      in case candidates of
           [] \<Rightarrow> Inl (NoOverlapError (take 10 (sorted_list_of_set (need_years need_all)))
                                    (take 10 (sorted_list_of_set (psy_years psy))))
         | y # _ \<Rightarrow> Inr y)"

text \<open>
  The notions the claims are stated with: the years that have a capacity record with a
  value, and the number of distinct locations with a value in a year.
\<close>

definition capacity_years :: "cap list \<Rightarrow> int set" where
  "capacity_years psy = {y. \<exists>r \<in> set psy. year r = Some y \<and> psy_per100k r \<noteq> None}"

definition coverage :: "cap list \<Rightarrow> int \<Rightarrow> nat" where
  "coverage psy y = card (location ` {r \<in> set psy. year r = Some y \<and> psy_per100k r \<noteq> None})"

section \<open>Micro chart: \<^verbatim>\<open>plot_micro_age_sex\<close>, lines 112-122\<close>



section \<open>Prioritization engine: \<^verbatim>\<open>plot_actionable\<close>, lines 145-187\<close>

text \<open>Lines 148-149: the need rows of the year, without those whose value is missing.\<close>

definition need_y :: "obs list \<Rightarrow> int \<Rightarrow> obs list" where
  "need_y need_all yr = filter (\<lambda>r. val r \<noteq> None) (filter (\<lambda>r. year r = Some yr) need_all)"

text \<open>Lines 150-151: the capacity rows of the year, without those whose value is missing.\<close>

definition psy_y :: "cap list \<Rightarrow> int \<Rightarrow> cap list" where
  "psy_y psy yr = filter (\<lambda>r. psy_per100k r \<noteq> None) (filter (\<lambda>r. year r = Some yr) psy)"

text \<open>
  \<^verbatim>\<open>left.merge(right, on=["location", "year"], how="inner")\<close>: every pair of a left and a
  right row with equal keys, in the order of the left rows.
\<close>

definition merge_inner :: "obs list \<Rightarrow> cap list \<Rightarrow> merged list" where
  "merge_inner left right =
     concat (map (\<lambda>n. map (\<lambda>p. \<lparr>location = location n, year = year n,
                                  psy_per100k = psy_per100k p, dep_prev = val n\<rparr>)
                          (filter (\<lambda>p. location p = location n \<and> year p = year n) right))
                 left)"

text \<open>Lines 152-154: the join, \<^verbatim>\<open>dropna\<close> on both columns, then \<^verbatim>\<open>psy_per100k > 0\<close>.\<close>

definition positive :: "real option \<Rightarrow> bool" where
  "positive v = (case v of None \<Rightarrow> False | Some c \<Rightarrow> 0 < c)"

definition merged_frame :: "obs list \<Rightarrow> cap list \<Rightarrow> int \<Rightarrow> merged list" where
  "merged_frame need_all psy yr =
     filter (\<lambda>m. positive (psy_per100k m))
       (filter (\<lambda>m. dep_prev m \<noteq> None \<and> psy_per100k m \<noteq> None)
          (merge_inner (need_y need_all yr) (psy_y psy yr)))"

text \<open>
  Lines 176-177. A missing operand gives a missing quotient. A zero denominator gives
  an infinity or NaN in the source, which is no real number: \<open>None\<close> here (it cannot
  happen on the rows of \<open>merged_frame\<close>, whose capacity is positive).
\<close>

definition eps :: real where
  "eps = 0.05"

definition priority_index_of :: "real option \<Rightarrow> real option \<Rightarrow> real option" where
  "priority_index_of d c =
     (case (d, c) of
        (Some x, Some y) \<Rightarrow> if y + eps = 0 then None else Some (x / (y + eps))
      | _ \<Rightarrow> None)"

text \<open>
  Line 177 as floating-point arithmetic computes it: the constant of line 176, the sum
  and the quotient are each the rounding \<open>rnd\<close> of the exact result. The rounding is
  a parameter, and \<open>monotone_rounding\<close> holds what the order of the results rests on:
  rounding never inverts two numbers, and the rounded constant is a number of the
  format (rounding it again changes nothing) above zero. Round-to-nearest on doubles
  is such a rounding; so is exact arithmetic, the rounding that changes nothing, which
  gives \<open>priority_index_of\<close>. Overflow to infinity is outside these real-valued
  results.
\<close>

definition priority_index_fl :: "(real \<Rightarrow> real) \<Rightarrow> real \<Rightarrow> real \<Rightarrow> real" where
  "priority_index_fl rnd x y = rnd (x / rnd (y + rnd eps))"

definition monotone_rounding :: "(real \<Rightarrow> real) \<Rightarrow> bool" where
  "monotone_rounding rnd \<longleftrightarrow> mono rnd \<and> rnd (rnd eps) = rnd eps \<and> 0 < rnd eps"

definition with_priority_index :: "merged \<Rightarrow> scored" where
  "with_priority_index m =
     \<lparr>location = location m, year = year m, psy_per100k = psy_per100k m,
      dep_prev = dep_prev m,
      priority_index = priority_index_of (dep_prev m) (psy_per100k m)\<rparr>"

text \<open>
  The frame the function returns: \<^verbatim>\<open>merged\<close> with its new column. The two quantile
  thresholds of lines 157-158 only place guide lines on the scatter chart.
\<close>

definition plot_actionable :: "obs list \<Rightarrow> cap list \<Rightarrow> int \<Rightarrow> scored list" where
  "plot_actionable need_all psy yr = map with_priority_index (merged_frame need_all psy yr)"

text \<open>Line 178, the rows of the bar chart: \<^verbatim>\<open>top\<close>.\<close>

definition plot_actionable_top ::
    "((scored \<Rightarrow> real option) \<Rightarrow> scored list \<Rightarrow> scored list) \<Rightarrow> obs list \<Rightarrow> cap list \<Rightarrow> int \<Rightarrow> scored list" where
  "plot_actionable_top srt need_all psy yr =
     take 15 (sort_values_desc srt priority_index (plot_actionable need_all psy yr))"

text \<open>
  The capacity rows a join is meant to see: those of the year whose value is present
  and positive. And the locations a frame has in a year.
\<close>

definition usable_capacity :: "cap list \<Rightarrow> int \<Rightarrow> cap list" where
  "usable_capacity psy yr = filter (\<lambda>r. year r = Some yr \<and> positive (psy_per100k r)) psy"

definition locations_in :: "('a keyed_scheme) list \<Rightarrow> int \<Rightarrow> string set" where
  "locations_in rs yr = location ` {r \<in> set rs. year r = Some yr}"

text \<open>
  The order a shortlist would have with ties on the index broken by location: index
  descending, then location ascending (strings compare character by character, as in
  Python).
\<close>

definition by_priority_then_location :: "scored \<Rightarrow> scored \<Rightarrow> bool" where
  "by_priority_then_location a b \<longleftrightarrow>
     priority_index b < priority_index a
     \<or> (priority_index a = priority_index b \<and> location a \<le> location b)"

section \<open>Example frames\<close>

definition need_row :: "string \<Rightarrow> int \<Rightarrow> real option \<Rightarrow> obs" where
  "need_row loc yr v =
     \<lparr>location = loc, year = Some yr, sex = ''Both'', age = ''All ages'',
      metric = ''Percent'', val = v, upper = None, lower = None\<rparr>"

definition cap_row :: "string \<Rightarrow> int \<Rightarrow> real option \<Rightarrow> cap" where
  "cap_row loc yr v = \<lparr>location = loc, year = Some yr, psy_per100k = v\<rparr>"

text \<open>A fractional file: every label is a percent label, the largest value is 1.\<close>

definition ex_frame_fraction :: ihme_frame where
  "ex_frame_fraction = \<lparr>rows =
     [\<lparr>location = ''Singapore'', year = Some 2020, sex = ''Both'', age = ''All ages'',
        metric = ''Percent'', val = Some 0.05, upper = Some 0.06, lower = Some 0.04\<rparr>,
      \<lparr>location = ''India'', year = Some 2020, sex = ''Both'', age = ''All ages'',
        metric = ''Percent'', val = Some 1, upper = None, lower = Some 0.5\<rparr>],
     has_metric = True, has_upper = True, has_lower = False\<rparr>"

text \<open>A file already in percent: the largest value is above 1.\<close>

definition ex_frame_percentage :: ihme_frame where
  "ex_frame_percentage = \<lparr>rows =
     [\<lparr>location = ''Singapore'', year = Some 2020, sex = ''Both'', age = ''All ages'',
        metric = ''Percent'', val = Some 0.9, upper = Some 1, lower = Some 0.8\<rparr>,
      \<lparr>location = ''India'', year = Some 2020, sex = ''Both'', age = ''All ages'',
        metric = ''Percent'', val = Some 4.2, upper = Some 5, lower = None\<rparr>],
     has_metric = True, has_upper = True, has_lower = True\<rparr>"

text \<open>A file that mixes a percent row with a count row.\<close>

definition ex_frame_mixed :: ihme_frame where
  "ex_frame_mixed = \<lparr>rows =
     [\<lparr>location = ''Singapore'', year = Some 2020, sex = ''Both'', age = ''All ages'',
        metric = ''Percent'', val = Some 0.05, upper = Some 0.06, lower = None\<rparr>,
      \<lparr>location = ''Singapore'', year = Some 2020, sex = ''Both'', age = ''All ages'',
        metric = ''Number'', val = Some 0.9, upper = Some 1.5, lower = None\<rparr>],
     has_metric = True, has_upper = True, has_lower = False\<rparr>"

text \<open>
  Need years 2017, 2019, 2020. Capacity: 2018 covers three locations, 2019 and 2020 two
  each (the row of C in 2020 has no value), 2017 one.
\<close>

definition ex_need_years :: "obs list" where
  "ex_need_years =
     [need_row ''A'' 2020 (Some 4), need_row ''A'' 2017 (Some 4), need_row ''B'' 2019 None]"

definition ex_psy_years :: "cap list" where
  "ex_psy_years =
     [cap_row ''A'' 2018 (Some 1), cap_row ''B'' 2018 (Some 2), cap_row ''C'' 2018 (Some 3),
      cap_row ''A'' 2020 (Some 1), cap_row ''B'' 2020 (Some 2), cap_row ''A'' 2020 (Some 5),
      cap_row ''C'' 2020 None,
      cap_row ''A'' 2019 (Some 1), cap_row ''B'' 2019 (Some 0),
      cap_row ''A'' 2017 (Some 1)]"

text \<open>A capacity file whose only row of 2020 has no value.\<close>

definition ex_psy_missing :: "cap list" where
  "ex_psy_missing = [cap_row ''A'' 2020 None]"

text \<open>Twelve need years, none of them a capacity year.\<close>

definition ex_need_many :: "obs list" where
  "ex_need_many = map (\<lambda>y. need_row ''A'' y (Some 4))
     [2015, 2010, 2000, 2001, 2002, 2003, 2004, 2005, 2006, 2007, 2008, 2009]"

definition ex_psy_late :: "cap list" where
  "ex_psy_late = [cap_row ''A'' 2019 (Some 1), cap_row ''A'' 2018 (Some 1)]"

text \<open>
  Need and capacity of 2020. B and A tie on the index; D has no need value; E has
  capacity 0 and -1; F has capacity only; G has need only.
\<close>

definition ex_need_2020 :: "obs list" where
  "ex_need_2020 =
     [need_row ''B'' 2020 (Some 10), need_row ''A'' 2020 (Some 10),
      need_row ''C'' 2020 (Some 20), need_row ''D'' 2020 None,
      need_row ''E'' 2020 (Some 30), need_row ''G'' 2020 (Some 5),
      need_row ''C'' 2019 (Some 99)]"

definition ex_psy_2020 :: "cap list" where
  "ex_psy_2020 =
     [cap_row ''B'' 2020 (Some 1), cap_row ''A'' 2020 (Some 1),
      cap_row ''C'' 2020 (Some 10), cap_row ''D'' 2020 (Some 2),
      cap_row ''E'' 2020 (Some 0), cap_row ''F'' 2020 (Some 3),
      cap_row ''C'' 2020 None, cap_row ''E'' 2020 (Some (- 1)),
      cap_row ''G'' 2019 (Some 4)]"

text \<open>Seventeen locations A to Q with need 1 to 17 and capacity 1.\<close>

definition ex_need_17 :: "obs list" where
  "ex_need_17 = map (\<lambda>(c, v). need_row [c] 2020 (Some (real v)))
     (zip ''ABCDEFGHIJKLMNOPQ'' [1 ..< 18])"

definition ex_psy_17 :: "cap list" where
  "ex_psy_17 = map (\<lambda>c. cap_row [c] 2020 (Some 1)) ''ABCDEFGHIJKLMNOPQ''"

text \<open>Rounding to three decimals: a small number format, on which ties are easy to see.\<close>

definition round_milli :: "real \<Rightarrow> real" where
  "round_milli x = of_int (round (x * 1000)) / 1000"




section \<open>The sort contract\<close>

lemma argsort_ok_sort_key: "argsort_ok sort_key"
  by (simp add: argsort_ok_def)

lemma argsort_stable_sort_key: "argsort_stable sort_key"
  by (simp add: argsort_stable_def sort_key_stable)

lemma mset_sort_values_desc:
  "argsort_ok srt \<Longrightarrow> mset (sort_values_desc srt key xs) = mset xs"
  by (simp add: argsort_ok_def sort_values_desc_def)

lemma set_sort_values_desc:
  "argsort_ok srt \<Longrightarrow> set (sort_values_desc srt key xs) = set xs"
  by (metis mset_sort_values_desc set_mset_mset)

lemma sorted_sort_values_desc:
  assumes "argsort_ok srt"
  shows "sorted_wrt (\<lambda>a b. key b \<le> key a) (sort_values_desc srt key xs)"
proof -
  from assms have "sorted (map key (srt key (rev xs)))" by (simp add: argsort_ok_def)
  then have "sorted_wrt (\<lambda>a b. key a \<le> key b) (srt key (rev xs))"
    by (simp add: sorted_map)
  then show ?thesis by (simp add: sort_values_desc_def sorted_wrt_rev)
qed

lemma stable_sort_values_desc:
  "argsort_stable srt \<Longrightarrow>
   filter (\<lambda>x. key x = k) (sort_values_desc srt key xs) = filter (\<lambda>x. key x = k) xs"
  by (simp add: argsort_stable_def sort_values_desc_def rev_filter [symmetric])

text \<open>
  The first row that passes a test \<open>P\<close>, in a list arranged by descending key: no row
  that passes has a larger key, and with a stable arrangement no row that passes with
  the same key stood before it in the input.
\<close>

lemma head_of_filter_max:
  assumes srt: "sorted_wrt (\<lambda>a b. key b \<le> key a) s"
    and hd: "filter P s = h # rest"
    and e: "e \<in> set s" "P e"
  shows "key e \<le> (key h :: 'k :: linorder)"
proof -
  from hd obtain us vs where s: "s = us @ h # vs" and us: "\<forall>u \<in> set us. \<not> P u"
    by (auto simp: filter_eq_Cons_iff)
  from e s us have "e = h \<or> e \<in> set vs" by auto
  with srt s show ?thesis by (auto simp: sorted_wrt_append)
qed

lemma head_of_filter_first_tie:
  assumes stab: "filter (\<lambda>x. key x = key h) s = filter (\<lambda>x. key x = key h) g"
    and g: "sorted_wrt (\<lambda>a b. pos a < pos b) g"
    and hd: "filter P s = h # rest"
    and e: "e \<in> set s" "P e" "key e = key h"
  shows "pos h \<le> (pos e :: 'p :: linorder)"
proof -
  from hd obtain us vs where s: "s = us @ h # vs" and us: "\<forall>u \<in> set us. \<not> P u"
    by (auto simp: filter_eq_Cons_iff)
  from e s us have "e = h \<or> e \<in> set vs" by auto
  then show ?thesis
  proof
    assume "e = h" then show ?thesis by simp
  next
    assume ev: "e \<in> set vs"
    have "sorted_wrt (\<lambda>a b. pos a < pos b) (filter (\<lambda>x. key x = key h) g)"
      using g by (rule sorted_wrt_filter)
    then have "sorted_wrt (\<lambda>a b. pos a < pos b) (filter (\<lambda>x. key x = key h) s)"
      by (simp only: stab)
    then have "sorted_wrt (\<lambda>a b. pos a < pos b)
        (filter (\<lambda>x. key x = key h) us @ h # filter (\<lambda>x. key x = key h) vs)"
      by (simp add: s)
    with ev e(3) have "pos h < pos e" by (auto simp: sorted_wrt_append)
    then show ?thesis by simp
  qed
qed

section \<open>Unit normalizer\<close>

lemma set_map_filter_id: "set (List.map_filter id vs) = {v. Some v \<in> set vs}"
  by (induction vs) (auto simp: List.map_filter_simps split: option.splits)

lemma series_max_eq:
  "series_max vs =
     (if {v. Some v \<in> set vs} = {} then None else Some (Max {v. Some v \<in> set vs}))"
proof (cases "List.map_filter id vs")
  case Nil
  then have "set (List.map_filter id vs) = {}" by simp
  then have "{v. Some v \<in> set vs} = {}" by (simp only: set_map_filter_id)
  with Nil show ?thesis by (simp add: series_max_def)
next
  case (Cons x xs)
  then have s: "{v. Some v \<in> set vs} = set (x # xs)"
    by (simp only: set_map_filter_id [symmetric])
  have "fold max xs x = Max (set (x # xs))" by (simp only: Max.set_eq_fold)
  with Cons s show ?thesis by (simp add: series_max_def)
qed

lemma observed_eq: "observed rs = {v. Some v \<in> set (map val rs)}"
  by (auto simp: observed_def image_iff) (metis)

lemma observed_code: "observed rs = set (List.map_filter id (map val rs))"
  by (simp only: observed_eq set_map_filter_id)

lemma max_le_one_iff: "max_le_one rs \<longleftrightarrow> observed rs \<noteq> {} \<and> Max (observed rs) \<le> 1"
  by (simp add: max_le_one_def series_max_eq observed_eq)

lemma is_percent_iff:
  "is_percent rs \<longleftrightarrow> (\<exists>r \<in> set rs. str_contains_ci (metric r) ''Percent'')"
  by (simp add: is_percent_def list_ex_iff)

lemma rescale_row_eq:
  "rescale_row up lo r =
     r\<lparr>val := map_option ((*) 100) (val r),
       upper := (if up then map_option ((*) 100) (upper r) else upper r),
       lower := (if lo then map_option ((*) 100) (lower r) else lower r)\<rparr>"
  by (cases "val r"; cases "upper r"; cases "lower r")
    (simp_all add: rescale_row_def times100_def mult.commute)

lemma load_ihme_rescaled:
  "has_metric df \<Longrightarrow> is_percent (rows df) \<Longrightarrow> max_le_one (rows df) \<Longrightarrow>
   load_ihme df = df\<lparr>rows := map (rescale_row (has_upper df) (has_lower df)) (rows df)\<rparr>"
  by (simp add: load_ihme_def)

lemma load_ihme_unchanged:
  "\<not> (has_metric df \<and> is_percent (rows df) \<and> max_le_one (rows df)) \<Longrightarrow> load_ihme df = df"
  by (auto simp: load_ihme_def)

text \<open>
  Claim C3. For a collection whose rows share one metric label: if the frame has the
  metric column, the label contains "percent" in any case of letters, and the largest
  value observed is at most 1, then every value, and every upper and lower bound when
  the frame has that column, is 100 times the input, a missing cell staying missing,
  and nothing else changes; otherwise the frame comes out as it went in.
\<close>

theorem load_ihme_shared_metric:
  assumes "\<forall>r \<in> set (rows df). metric r = lbl"
  shows "if has_metric df \<and> str_contains_ci lbl ''Percent''
            \<and> observed (rows df) \<noteq> {} \<and> Max (observed (rows df)) \<le> 1
         then load_ihme df = df\<lparr>rows := map (\<lambda>r. r\<lparr>val := map_option ((*) 100) (val r),
                 upper := (if has_upper df then map_option ((*) 100) (upper r) else upper r),
                 lower := (if has_lower df then map_option ((*) 100) (lower r) else lower r)\<rparr>)
               (rows df)\<rparr>
         else load_ihme df = df"
proof (cases "has_metric df \<and> str_contains_ci lbl ''Percent''
            \<and> observed (rows df) \<noteq> {} \<and> Max (observed (rows df)) \<le> 1")
  case True
  then obtain r where "r \<in> set (rows df)" by (auto simp: observed_def)
  with assms True have "is_percent (rows df)" by (auto simp: is_percent_iff)
  moreover from True have "max_le_one (rows df)" by (simp add: max_le_one_iff)
  moreover from True have "has_metric df" by simp
  ultimately have "load_ihme df
      = df\<lparr>rows := map (rescale_row (has_upper df) (has_lower df)) (rows df)\<rparr>"
    by (intro load_ihme_rescaled)
  with True show ?thesis by (simp add: rescale_row_eq [abs_def])
next
  case False
  have "\<not> (has_metric df \<and> is_percent (rows df) \<and> max_le_one (rows df))"
  proof
    assume a: "has_metric df \<and> is_percent (rows df) \<and> max_le_one (rows df)"
    then obtain r where "r \<in> set (rows df)" "str_contains_ci (metric r) ''Percent''"
      by (auto simp: is_percent_iff)
    with assms have "str_contains_ci lbl ''Percent''" by auto
    with a False show False by (simp add: max_le_one_iff)
  qed
  then have "load_ihme df = df" by (rule load_ihme_unchanged)
  then show ?thesis unfolding if_not_P [OF False] .
qed

theorem load_ihme_shared_metric_witness:
  "map val (rows (load_ihme ex_frame_fraction)) = [Some 5, Some 100]
   \<and> map upper (rows (load_ihme ex_frame_fraction)) = [Some 6, None]
   \<and> map lower (rows (load_ihme ex_frame_fraction)) = [Some 0.04, Some 0.5]
   \<and> load_ihme ex_frame_percentage = ex_frame_percentage"
proof -
  have l1: "\<forall>r \<in> set (rows ex_frame_fraction). metric r = ''Percent''"
    by (simp add: ex_frame_fraction_def)
  have l2: "\<forall>r \<in> set (rows ex_frame_percentage). metric r = ''Percent''"
    by (simp add: ex_frame_percentage_def)
  have p: "str_contains_ci ''Percent'' ''Percent''"
    by (simp add: str_contains_ci_def lower_char_def)
  have o1: "observed (rows ex_frame_fraction) = {0.05, 1}"
    by (auto simp: observed_def ex_frame_fraction_def)
  have o2: "observed (rows ex_frame_percentage) = {0.9, 4.2}"
    by (auto simp: observed_def ex_frame_percentage_def)
  have h1: "has_metric ex_frame_fraction" by (simp add: ex_frame_fraction_def)
  have m1: "Max (observed (rows ex_frame_fraction)) \<le> 1" by (simp add: o1)
  have m2: "\<not> Max (observed (rows ex_frame_percentage)) \<le> 1"
    by (simp add: o2)
  from load_ihme_shared_metric [OF l1] p h1 m1 o1
  have "load_ihme ex_frame_fraction = ex_frame_fraction\<lparr>rows :=
      map (\<lambda>r. r\<lparr>val := map_option ((*) 100) (val r),
                 upper := (if has_upper ex_frame_fraction
                           then map_option ((*) 100) (upper r) else upper r),
                 lower := (if has_lower ex_frame_fraction
                           then map_option ((*) 100) (lower r) else lower r)\<rparr>)
        (rows ex_frame_fraction)\<rparr>"
    by simp
  then have a: "map val (rows (load_ihme ex_frame_fraction)) = [Some 5, Some 100]
      \<and> map upper (rows (load_ihme ex_frame_fraction)) = [Some 6, None]
      \<and> map lower (rows (load_ihme ex_frame_fraction)) = [Some 0.04, Some 0.5]"
    by (simp add: ex_frame_fraction_def)
  from load_ihme_shared_metric [OF l2] m2
  have "load_ihme ex_frame_percentage = ex_frame_percentage" by simp
  with a show ?thesis by simp
qed

text \<open>
  Claim C10. One row whose label contains "percent" (in any case of letters) is enough:
  when the largest value observed over all rows is at most 1, every row is rescaled by
  100, whatever its own label.
\<close>

theorem load_ihme_any_row:
  assumes "has_metric df" and "r0 \<in> set (rows df)"
    and "str_contains_ci (metric r0) ''Percent''"
    and "observed (rows df) \<noteq> {}" and "Max (observed (rows df)) \<le> 1"
  shows "rows (load_ihme df) = map (\<lambda>r. r\<lparr>val := map_option ((*) 100) (val r),
                 upper := (if has_upper df then map_option ((*) 100) (upper r) else upper r),
                 lower := (if has_lower df then map_option ((*) 100) (lower r) else lower r)\<rparr>)
           (rows df)"
proof -
  from assms(2,3) have "is_percent (rows df)" by (auto simp: is_percent_iff)
  moreover from assms(4,5) have "max_le_one (rows df)" by (simp add: max_le_one_iff)
  ultimately have "load_ihme df
      = df\<lparr>rows := map (rescale_row (has_upper df) (has_lower df)) (rows df)\<rparr>"
    using assms(1) by (intro load_ihme_rescaled)
  then show ?thesis by (simp add: rescale_row_eq [abs_def])
qed

theorem load_ihme_any_row_witness:
  "map metric (rows (load_ihme ex_frame_mixed)) = [''Percent'', ''Number'']
   \<and> map val (rows ex_frame_mixed) = [Some 0.05, Some 0.9]
   \<and> map val (rows (load_ihme ex_frame_mixed)) = [Some 5, Some 90]
   \<and> map upper (rows (load_ihme ex_frame_mixed)) = [Some 6, Some 150]"
proof -
  have 1: "has_metric ex_frame_mixed" by (simp add: ex_frame_mixed_def)
  have 2: "rows ex_frame_mixed ! 0 \<in> set (rows ex_frame_mixed)"
    by (simp add: ex_frame_mixed_def)
  have 3: "str_contains_ci (metric (rows ex_frame_mixed ! 0)) ''Percent''"
    by (simp add: ex_frame_mixed_def str_contains_ci_def lower_char_def)
  have o: "observed (rows ex_frame_mixed) = {0.05, 0.9}"
    by (auto simp: observed_def ex_frame_mixed_def)
  have 4: "observed (rows ex_frame_mixed) \<noteq> {}" by (simp add: o)
  have 5: "Max (observed (rows ex_frame_mixed)) \<le> 1" by (simp add: o)
  show ?thesis using load_ihme_any_row [OF 1 2 3 4 5] by (simp add: ex_frame_mixed_def)
qed

section \<open>Year reconciler\<close>

lemma set_map_filter_year:
  "set (List.map_filter year rs) = {y. \<exists>r \<in> set rs. year r = Some y}"
  by (induction rs) (auto simp: List.map_filter_simps split: option.splits)

lemma need_years_iff: "y \<in> need_years need_all \<longleftrightarrow> (\<exists>r \<in> set need_all. year r = Some y)"
  by (simp add: need_years_def set_map_filter_year)

lemma psy_years_iff: "y \<in> psy_years psy \<longleftrightarrow> (\<exists>r \<in> set psy. year r = Some y)"
  by (simp add: psy_years_def set_map_filter_year)

lemma capacity_years_code: "capacity_years psy = set (List.map_filter year (dropna_psy psy))"
  by (auto simp: capacity_years_def set_map_filter_year dropna_psy_def)

lemma coverage_code:
  "coverage psy y
     = length (remdups (map location (filter (\<lambda>r. year r = Some y) (dropna_psy psy))))"
proof -
  have "set (filter (\<lambda>r. year r = Some y) (dropna_psy psy))
      = {r \<in> set psy. year r = Some y \<and> psy_per100k r \<noteq> None}"
    by (auto simp: dropna_psy_def)
  then show ?thesis by (simp add: coverage_def length_remdups_card_conv)
qed

lemma fst_nunique:
  "map fst (nunique_location_by_year rs) = sort (remdups (List.map_filter year rs))"
  by (simp add: nunique_location_by_year_def comp_def)

lemma years_nunique_dropna:
  "fst ` set (nunique_location_by_year (dropna_psy psy)) = capacity_years psy"
proof -
  have "fst ` set (nunique_location_by_year (dropna_psy psy))
      = set (map fst (nunique_location_by_year (dropna_psy psy)))" by simp
  also have "\<dots> = set (List.map_filter year (dropna_psy psy))"
    by (simp only: fst_nunique set_sort set_remdups)
  finally show ?thesis by (simp only: capacity_years_code)
qed

lemma count_nunique_dropna:
  assumes "(y, c) \<in> set (nunique_location_by_year (dropna_psy psy))"
  shows "c = coverage psy y"
  using assms by (auto simp: nunique_location_by_year_def coverage_code)

lemma nunique_strictly_ascending:
  "sorted_wrt (\<lambda>a b. fst a < fst b) (nunique_location_by_year rs)"
proof -
  have "sorted_wrt (<) (map fst (nunique_location_by_year rs))"
    by (simp only: fst_nunique) (simp add: strict_sorted_iff)
  then show ?thesis by (simp add: sorted_wrt_map)
qed

lemma set_psy_counts:
  "argsort_ok srt \<Longrightarrow>
   set (psy_counts srt psy) = set (nunique_location_by_year (dropna_psy psy))"
  by (simp add: psy_counts_def set_sort_values_desc)

lemma candidates_eq:
  "filter (\<lambda>y. y \<in> N) (map fst s) = map fst (filter (\<lambda>e. fst e \<in> N) s)"
  by (simp add: filter_map comp_def)

lemma choose_actionable_year_Inr:
  assumes ok: "argsort_ok srt"
    and res: "choose_actionable_year srt need_all psy = Inr y"
  shows "y \<in> need_years need_all \<inter> capacity_years psy"
    and "\<And>y'. y' \<in> need_years need_all \<inter> capacity_years psy \<Longrightarrow>
           coverage psy y' \<le> coverage psy y"
    and "\<And>y'. argsort_stable srt \<Longrightarrow> y' \<in> need_years need_all \<inter> capacity_years psy \<Longrightarrow>
           coverage psy y' = coverage psy y \<Longrightarrow> y \<le> y'"
proof -
  let ?g = "nunique_location_by_year (dropna_psy psy)"
  let ?s = "psy_counts srt psy"
  let ?P = "\<lambda>e :: int \<times> nat. fst e \<in> need_years need_all"
  from res obtain ys where "filter (\<lambda>y. y \<in> need_years need_all) (map fst ?s) = y # ys"
    by (auto simp: choose_actionable_year_def Let_def split: list.splits)
  then have "map fst (filter ?P ?s) = y # ys" by (simp only: candidates_eq)
  then obtain h rest where hd: "filter ?P ?s = h # rest" and h: "fst h = y"
    by (auto simp: map_eq_Cons_conv)
  from hd have "h \<in> set (filter ?P ?s)" by simp
  then have hs: "h \<in> set ?s" and hP: "?P h" by simp_all
  have sets: "set ?s = set ?g" using ok by (rule set_psy_counts)
  have cov: "\<And>e. e \<in> set ?s \<Longrightarrow> snd e = coverage psy (fst e)"
    using count_nunique_dropna [of _ _ psy] sets by (metis prod.collapse)
  have mem: "\<And>y'. y' \<in> capacity_years psy \<Longrightarrow> \<exists>e \<in> set ?s. fst e = y'"
    using years_nunique_dropna [of psy] sets by (metis (no_types, lifting) image_iff)
  from hs sets have "fst h \<in> capacity_years psy"
    using years_nunique_dropna [of psy] by (metis image_eqI)
  with hP h show "y \<in> need_years need_all \<inter> capacity_years psy" by simp
  have srt: "sorted_wrt (\<lambda>a b. snd b \<le> snd a) ?s"
    unfolding psy_counts_def using ok by (rule sorted_sort_values_desc)
  {
    fix y' assume y': "y' \<in> need_years need_all \<inter> capacity_years psy"
    then have "\<exists>e \<in> set ?s. fst e = y'" by (intro mem) simp
    then obtain e where e: "e \<in> set ?s" "fst e = y'" by blast
    with y' have Pe: "?P e" by simp
    from srt hd e(1) Pe have "snd e \<le> snd h" by (rule head_of_filter_max)
    with cov [OF e(1)] cov [OF hs] e(2) h show "coverage psy y' \<le> coverage psy y" by simp
  }
  {
    fix y' assume st: "argsort_stable srt"
      and y': "y' \<in> need_years need_all \<inter> capacity_years psy"
      and tie: "coverage psy y' = coverage psy y"
    from y' have "\<exists>e \<in> set ?s. fst e = y'" by (intro mem) simp
    then obtain e where e: "e \<in> set ?s" "fst e = y'" by blast
    with y' have Pe: "?P e" by simp
    from tie cov [OF e(1)] cov [OF hs] e(2) h have k: "snd e = snd h" by simp
    have stab: "filter (\<lambda>x. snd x = snd h) ?s = filter (\<lambda>x. snd x = snd h) ?g"
      unfolding psy_counts_def using st by (rule stable_sort_values_desc)
    from stab nunique_strictly_ascending hd e(1) Pe k have "fst h \<le> fst e"
      by (rule head_of_filter_first_tie)
    with e(2) h show "y \<le> y'" by simp
  }
qed

lemma choose_actionable_year_Inl_iff:
  assumes ok: "argsort_ok srt"
  shows "(\<exists>e. choose_actionable_year srt need_all psy = Inl e) \<longleftrightarrow>
         need_years need_all \<inter> capacity_years psy = {}"
proof -
  let ?s = "psy_counts srt psy"
  have "fst ` set ?s = capacity_years psy"
    using set_psy_counts [OF ok] years_nunique_dropna by simp
  then have "set (filter (\<lambda>y. y \<in> need_years need_all) (map fst ?s))
       = need_years need_all \<inter> capacity_years psy" by auto
  then have "filter (\<lambda>y. y \<in> need_years need_all) (map fst ?s) = [] \<longleftrightarrow>
       need_years need_all \<inter> capacity_years psy = {}"
    by (metis set_empty)
  then show ?thesis
    by (auto simp: choose_actionable_year_def Let_def split: list.splits)
qed

lemma choose_actionable_year_Inl:
  "choose_actionable_year srt need_all psy = Inl e \<Longrightarrow>
   e = NoOverlapError (take 10 (sorted_list_of_set (need_years need_all)))
                      (take 10 (sorted_list_of_set (psy_years psy)))"
  by (auto simp: choose_actionable_year_def Let_def split: list.splits)

text \<open>
  Claim C1, as amended. Whenever some year of the need data has a capacity record with
  a value, the function returns a year, that year is a need year and has a capacity
  record with a value, and no such year has more distinct locations with a value. When
  the library's sort keeps equal counts in input order, the returned year is moreover
  the smallest of the years tied at that count.
\<close>

theorem choose_actionable_year_selects:
  assumes "argsort_ok srt" and "need_years need_all \<inter> capacity_years psy \<noteq> {}"
  shows "\<exists>y. choose_actionable_year srt need_all psy = Inr y
           \<and> y \<in> need_years need_all \<and> y \<in> capacity_years psy
           \<and> (\<forall>y' \<in> need_years need_all \<inter> capacity_years psy.
                 coverage psy y' \<le> coverage psy y)
           \<and> (argsort_stable srt \<longrightarrow>
                (\<forall>y' \<in> need_years need_all \<inter> capacity_years psy.
                   coverage psy y' = coverage psy y \<longrightarrow> y \<le> y'))"
proof -
  from assms have "\<not> (\<exists>e. choose_actionable_year srt need_all psy = Inl e)"
    by (simp add: choose_actionable_year_Inl_iff)
  then obtain y where y: "choose_actionable_year srt need_all psy = Inr y"
    by (cases "choose_actionable_year srt need_all psy") auto
  note r = choose_actionable_year_Inr [OF assms(1) y]
  from r(1) r(2) r(3) y show ?thesis by blast
qed

theorem choose_actionable_year_selects_witness:
  "choose_actionable_year sort_key ex_need_years ex_psy_years = Inr 2019
   \<and> need_years ex_need_years \<inter> capacity_years ex_psy_years = {2017, 2019, 2020}
   \<and> map (coverage ex_psy_years) [2017, 2018, 2019, 2020] = [1, 3, 2, 2]"
proof -
  have i: "need_years ex_need_years \<inter> capacity_years ex_psy_years = {2017, 2019, 2020}"
    unfolding capacity_years_code by code_simp
  then have ne: "need_years ex_need_years \<inter> capacity_years ex_psy_years \<noteq> {}" by simp
  have c: "map (coverage ex_psy_years) [2017, 2018, 2019, 2020] = [1, 3, 2, 2]"
    unfolding coverage_code by code_simp
  from choose_actionable_year_selects [OF argsort_ok_sort_key ne]
  obtain y where y: "choose_actionable_year sort_key ex_need_years ex_psy_years = Inr y"
    and m: "y \<in> need_years ex_need_years \<inter> capacity_years ex_psy_years"
    and s: "\<forall>y' \<in> need_years ex_need_years \<inter> capacity_years ex_psy_years.
              coverage ex_psy_years y' \<le> coverage ex_psy_years y"
           "\<forall>y' \<in> need_years ex_need_years \<inter> capacity_years ex_psy_years.
              coverage ex_psy_years y' = coverage ex_psy_years y \<longrightarrow> y \<le> y'"
    using argsort_stable_sort_key by auto
  from m have "y = 2017 \<or> y = 2019 \<or> y = 2020" by (simp add: i)
  moreover from s(1) have "coverage ex_psy_years 2019 \<le> coverage ex_psy_years y"
    by (simp add: i)
  moreover from s(2) have "coverage ex_psy_years 2019 = coverage ex_psy_years y \<longrightarrow> y \<le> 2019"
    by (simp add: i)
  ultimately have "y = 2019" using c by auto
  with y i c show ?thesis by simp
qed

text \<open>
  Claim C1 as stated fails where the two files share a year but every capacity record
  of that year lacks its value: the years intersect (2020 is in both files), and the
  function raises instead of returning a year.
\<close>

theorem choose_actionable_year_missing_capacity_counterexample:
  "need_years ex_need_years \<inter> psy_years ex_psy_missing = {2020}
   \<and> choose_actionable_year sort_key ex_need_years ex_psy_missing
       = Inl (NoOverlapError [2017, 2019, 2020] [2020])"
  by code_simp

text \<open>
  Why the smallest tied year needs a sort that keeps equal counts in input order: the
  routine that sorts the reversed input is within the contract too, and with it the
  larger of the tied years 2019 and 2020 comes first.
\<close>

lemma tie_order_depends_on_sort:
  "argsort_ok (\<lambda>key xs. sort_key key (rev xs))
   \<and> choose_actionable_year (\<lambda>key xs. sort_key key (rev xs)) ex_need_years ex_psy_years
       = Inr 2020"
proof -
  have "argsort_ok (\<lambda>key xs. sort_key key (rev xs))" by (simp add: argsort_ok_def)
  moreover have "choose_actionable_year (\<lambda>key xs. sort_key key (rev xs))
      ex_need_years ex_psy_years = Inr 2020" by code_simp
  ultimately show ?thesis by simp
qed

text \<open>
  Claim C5. The function raises exactly when no year that has a capacity record with a
  value is a need year. The error then carries the ten smallest need years and the ten
  smallest years of the capacity file, each in ascending order. Otherwise the year
  returned is one of the years in the intersection.
\<close>

theorem choose_actionable_year_no_overlap:
  assumes "argsort_ok srt"
  shows "if need_years need_all \<inter> capacity_years psy = {}
         then choose_actionable_year srt need_all psy
                = Inl (NoOverlapError (take 10 (sorted_list_of_set (need_years need_all)))
                                      (take 10 (sorted_list_of_set (psy_years psy))))
         else \<exists>y. choose_actionable_year srt need_all psy = Inr y
                  \<and> y \<in> need_years need_all \<inter> capacity_years psy"
proof (cases "need_years need_all \<inter> capacity_years psy = {}")
  case True
  with assms obtain e where e: "choose_actionable_year srt need_all psy = Inl e"
    using choose_actionable_year_Inl_iff [of srt need_all psy] by blast
  from choose_actionable_year_Inl [OF e] e True show ?thesis by simp
next
  case False
  with assms have "\<not> (\<exists>e. choose_actionable_year srt need_all psy = Inl e)"
    by (simp add: choose_actionable_year_Inl_iff)
  then obtain y where y: "choose_actionable_year srt need_all psy = Inr y"
    by (cases "choose_actionable_year srt need_all psy") auto
  from choose_actionable_year_Inr(1) [OF assms y] y False show ?thesis by simp
qed

theorem choose_actionable_year_no_overlap_witness:
  "need_years ex_need_many \<inter> capacity_years ex_psy_late = {}
   \<and> choose_actionable_year sort_key ex_need_many ex_psy_late
       = Inl (NoOverlapError [2000, 2001, 2002, 2003, 2004, 2005, 2006, 2007, 2008, 2009]
                             [2018, 2019])"
proof -
  have i: "need_years ex_need_many \<inter> capacity_years ex_psy_late = {}"
    unfolding capacity_years_code by code_simp
  have n: "take 10 (sorted_list_of_set (need_years ex_need_many))
        = [2000, 2001, 2002, 2003, 2004, 2005, 2006, 2007, 2008, 2009]"
    by code_simp
  have p: "take 10 (sorted_list_of_set (psy_years ex_psy_late)) = [2018, 2019]"
    by code_simp
  from choose_actionable_year_no_overlap [OF argsort_ok_sort_key, of ex_need_many ex_psy_late]
  show ?thesis by (simp only: i n p if_True simp_thms)
qed

section \<open>Prioritization engine\<close>

lemma merge_inner_Nil: "merge_inner [] right = []"
  by (simp add: merge_inner_def)

lemma merge_inner_Cons:
  "merge_inner (n # left) right =
     map (\<lambda>p. \<lparr>location = location n, year = year n,
                psy_per100k = psy_per100k p, dep_prev = val n\<rparr>)
       (filter (\<lambda>p. location p = location n \<and> year p = year n) right)
     @ merge_inner left right"
  by (simp add: merge_inner_def)

text \<open>A filter on one side's column after the join is the same filter before it.\<close>

lemma filter_capacity_merge_inner:
  "filter (\<lambda>m. Q (psy_per100k m)) (merge_inner left right)
     = merge_inner left (filter (\<lambda>p. Q (psy_per100k p)) right)"
  by (induction left)
    (simp_all add: merge_inner_Nil merge_inner_Cons filter_map comp_def conj_commute)

lemma filter_need_merge_inner:
  "filter (\<lambda>m. Q (dep_prev m)) (merge_inner left right)
     = merge_inner (filter (\<lambda>n. Q (val n)) left) right"
  by (induction left) (simp_all add: merge_inner_Nil merge_inner_Cons filter_map comp_def)

lemma set_merge_inner:
  "m \<in> set (merge_inner left right) \<longleftrightarrow>
     (\<exists>n \<in> set left. \<exists>p \<in> set right. location p = location n \<and> year p = year n
        \<and> m = \<lparr>location = location n, year = year n,
               psy_per100k = psy_per100k p, dep_prev = val n\<rparr>)"
  by (induction left) (auto simp: merge_inner_Nil merge_inner_Cons)

lemma positive_iff: "positive v \<longleftrightarrow> (\<exists>c. v = Some c \<and> 0 < c)"
  by (cases v) (simp_all add: positive_def)

lemma merged_frame_eq:
  "merged_frame need_all psy yr = merge_inner (need_y need_all yr) (usable_capacity psy yr)"
proof -
  let ?J = "merge_inner (need_y need_all yr) (psy_y psy yr)"
  have a: "filter (\<lambda>m. dep_prev m \<noteq> None \<and> psy_per100k m \<noteq> None) ?J = ?J"
  proof -
    have "filter (\<lambda>m. dep_prev m \<noteq> None \<and> psy_per100k m \<noteq> None) ?J
        = filter (\<lambda>m. dep_prev m \<noteq> None) (filter (\<lambda>m. psy_per100k m \<noteq> None) ?J)"
      by (simp add: conj_commute)
    also have "filter (\<lambda>m. psy_per100k m \<noteq> None) ?J = ?J"
    proof -
      have "filter (\<lambda>p. psy_per100k p \<noteq> None) (psy_y psy yr) = psy_y psy yr"
        unfolding psy_y_def by (rule filter_id_conv [THEN iffD2]) simp
      then show ?thesis
        by (simp only: filter_capacity_merge_inner [where Q = "\<lambda>v. v \<noteq> None"])
    qed
    also have "filter (\<lambda>m. dep_prev m \<noteq> None) ?J = ?J"
    proof -
      have "filter (\<lambda>n. val n \<noteq> None) (need_y need_all yr) = need_y need_all yr"
        unfolding need_y_def by (rule filter_id_conv [THEN iffD2]) simp
      then show ?thesis
        by (simp only: filter_need_merge_inner [where Q = "\<lambda>v. v \<noteq> None"])
    qed
    finally show ?thesis .
  qed
  have b: "filter (\<lambda>p. positive (psy_per100k p)) (psy_y psy yr) = usable_capacity psy yr"
    by (auto simp: psy_y_def usable_capacity_def positive_iff intro: filter_cong)
  show ?thesis
    by (simp only: merged_frame_def a filter_capacity_merge_inner [where Q = positive] b)
qed

lemma merged_frame_row:
  assumes "m \<in> set (merged_frame need_all psy yr)"
  shows "\<exists>n \<in> set need_all. \<exists>p \<in> set psy. \<exists>d c.
           year n = Some yr \<and> year p = Some yr \<and> location n = location p
           \<and> val n = Some d \<and> psy_per100k p = Some c \<and> 0 < c
           \<and> m = \<lparr>location = location n, year = Some yr,
                  psy_per100k = Some c, dep_prev = Some d\<rparr>"
proof -
  from assms obtain n p where n: "n \<in> set (need_y need_all yr)"
    and p: "p \<in> set (usable_capacity psy yr)"
    and k: "location p = location n"
    and m: "m = \<lparr>location = location n, year = year n,
                 psy_per100k = psy_per100k p, dep_prev = val n\<rparr>"
    by (auto simp: merged_frame_eq set_merge_inner)
  from n obtain d where "n \<in> set need_all" "year n = Some yr" "val n = Some d"
    by (auto simp: need_y_def)
  moreover from p obtain c
    where "p \<in> set psy" "year p = Some yr" "psy_per100k p = Some c" "0 < c"
    by (auto simp: usable_capacity_def positive_iff)
  ultimately show ?thesis using k m
    by (intro bexI [of _ n] bexI [of _ p] exI [of _ d] exI [of _ c]) simp_all
qed

lemma plot_actionable_row:
  assumes "r \<in> set (plot_actionable need_all psy yr)"
  shows "\<exists>n \<in> set need_all. \<exists>p \<in> set psy. \<exists>d c.
           year n = Some yr \<and> year p = Some yr \<and> location n = location p
           \<and> val n = Some d \<and> psy_per100k p = Some c \<and> 0 < c
           \<and> r = \<lparr>location = location n, year = Some yr, psy_per100k = Some c,
                  dep_prev = Some d, priority_index = Some (d / (c + eps))\<rparr>"
proof -
  from assms obtain m where m: "m \<in> set (merged_frame need_all psy yr)"
    and r: "r = with_priority_index m" by (auto simp: plot_actionable_def)
  from merged_frame_row [OF m] obtain n p d c where
    *: "n \<in> set need_all" "p \<in> set psy" "year n = Some yr" "year p = Some yr"
       "location n = location p" "val n = Some d" "psy_per100k p = Some c" "0 < c"
       "m = \<lparr>location = location n, year = Some yr, psy_per100k = Some c, dep_prev = Some d\<rparr>"
    by blast
  from \<open>0 < c\<close> have "c + eps \<noteq> 0" by (simp add: eps_def)
  with r *(9) have "r = \<lparr>location = location n, year = Some yr, psy_per100k = Some c,
      dep_prev = Some d, priority_index = Some (d / (c + eps))\<rparr>"
    by (simp add: with_priority_index_def priority_index_of_def)
  with * show ?thesis by blast
qed

text \<open>
  Claim C2, as amended. The shortlist is the first 15 rows of an arrangement of the
  joined set by descending priority index. Rows with equal index are not ordered by
  location: they stand as the library's sort leaves them, which is their order in the
  joined set when that sort keeps equal keys in input order.
\<close>

theorem top_is_sorted_prefix:
  assumes "argsort_ok srt"
  shows "\<exists>s. plot_actionable_top srt need_all psy yr = take 15 s
           \<and> mset s = mset (plot_actionable need_all psy yr)
           \<and> sorted_wrt (\<lambda>a b. priority_index b \<le> priority_index a) s
           \<and> (argsort_stable srt \<longrightarrow>
                (\<forall>k. filter (\<lambda>r. priority_index r = k) s
                      = filter (\<lambda>r. priority_index r = k) (plot_actionable need_all psy yr)))"
proof -
  let ?s = "sort_values_desc srt priority_index (plot_actionable need_all psy yr)"
  have "plot_actionable_top srt need_all psy yr = take 15 ?s"
    by (simp add: plot_actionable_top_def)
  moreover have "mset ?s = mset (plot_actionable need_all psy yr)"
    using assms by (rule mset_sort_values_desc)
  moreover have "sorted_wrt (\<lambda>a b. priority_index b \<le> priority_index a) ?s"
    using assms by (rule sorted_sort_values_desc)
  moreover have "argsort_stable srt \<longrightarrow>
                (\<forall>k. filter (\<lambda>r. priority_index r = k) ?s
                      = filter (\<lambda>r. priority_index r = k) (plot_actionable need_all psy yr))"
    by (simp add: stable_sort_values_desc)
  ultimately show ?thesis by blast
qed

theorem top_is_sorted_prefix_witness:
  "length (plot_actionable ex_need_17 ex_psy_17 2020) = 17
   \<and> map location (plot_actionable_top sort_key ex_need_17 ex_psy_17 2020)
       = [''Q'', ''P'', ''O'', ''N'', ''M'', ''L'', ''K'', ''J'', ''I'', ''H'', ''G'', ''F'',
          ''E'', ''D'', ''C'']
   \<and> (\<exists>s. plot_actionable_top sort_key ex_need_17 ex_psy_17 2020 = take 15 s
         \<and> mset s = mset (plot_actionable ex_need_17 ex_psy_17 2020)
         \<and> sorted_wrt (\<lambda>a b. priority_index b \<le> priority_index a) s)"
proof -
  have a: "length (plot_actionable ex_need_17 ex_psy_17 2020) = 17" by code_simp
  have b: "map location (plot_actionable_top sort_key ex_need_17 ex_psy_17 2020)
       = [''Q'', ''P'', ''O'', ''N'', ''M'', ''L'', ''K'', ''J'', ''I'', ''H'', ''G'', ''F'',
          ''E'', ''D'', ''C'']" by code_simp
  from top_is_sorted_prefix [OF argsort_ok_sort_key, of ex_need_17 ex_psy_17 2020]
  have "\<exists>s. plot_actionable_top sort_key ex_need_17 ex_psy_17 2020 = take 15 s
         \<and> mset s = mset (plot_actionable ex_need_17 ex_psy_17 2020)
         \<and> sorted_wrt (\<lambda>a b. priority_index b \<le> priority_index a) s" by blast
  with a b show ?thesis by (intro conjI)
qed

text \<open>
  Claim C2 as stated fails on a tie: B and A have the same priority index, B stands
  before A in the joined set and stays before it in the shortlist, although A is the
  smaller location.
\<close>

theorem top_tie_not_by_location_counterexample:
  "map location (plot_actionable_top sort_key ex_need_2020 ex_psy_2020 2020)
     = [''B'', ''A'', ''C'']
   \<and> map priority_index (plot_actionable_top sort_key ex_need_2020 ex_psy_2020 2020)
     = [Some (200 / 21), Some (200 / 21), Some (400 / 201)]
   \<and> ''A'' < ''B''
   \<and> \<not> sorted_wrt by_priority_then_location
         (plot_actionable_top sort_key ex_need_2020 ex_psy_2020 2020)"
  by code_simp

text \<open>
  Claim C4. Every row of the joined set has a need value \<open>d\<close>, a capacity value \<open>c\<close>
  and the priority index \<open>d / (c + 0.05)\<close>; the constant is 0.05; need 20 with
  capacity 0 gives 400 by that formula, need 20 with capacity 10 gives 20 / 10.05.
\<close>

theorem priority_index_formula:
  "(\<forall>r \<in> set (plot_actionable need_all psy yr).
      \<exists>d c. dep_prev r = Some d \<and> psy_per100k r = Some c
            \<and> priority_index r = Some (d / (c + 0.05)))
   \<and> eps = 0.05
   \<and> priority_index_of (Some 20) (Some 0) = Some 400
   \<and> priority_index_of (Some 20) (Some 10) = Some (20 / 10.05)"
proof -
  have "\<forall>r \<in> set (plot_actionable need_all psy yr).
      \<exists>d c. dep_prev r = Some d \<and> psy_per100k r = Some c
            \<and> priority_index r = Some (d / (c + 0.05))"
  proof
    fix r assume "r \<in> set (plot_actionable need_all psy yr)"
    from plot_actionable_row [OF this]
    show "\<exists>d c. dep_prev r = Some d \<and> psy_per100k r = Some c
            \<and> priority_index r = Some (d / (c + 0.05))"
      by (auto simp: eps_def)
  qed
  then show ?thesis by (simp add: priority_index_of_def eps_def)
qed

theorem priority_index_formula_witness:
  "map dep_prev (plot_actionable ex_need_2020 ex_psy_2020 2020)
     = [Some 10, Some 10, Some 20]
   \<and> map psy_per100k (plot_actionable ex_need_2020 ex_psy_2020 2020)
     = [Some 1, Some 1, Some 10]
   \<and> map priority_index (plot_actionable ex_need_2020 ex_psy_2020 2020)
     = [Some (10 / 1.05), Some (10 / 1.05), Some (20 / 10.05)]
   \<and> (\<exists>d c. dep_prev (plot_actionable ex_need_2020 ex_psy_2020 2020 ! 2) = Some d
          \<and> psy_per100k (plot_actionable ex_need_2020 ex_psy_2020 2020 ! 2) = Some c
          \<and> priority_index (plot_actionable ex_need_2020 ex_psy_2020 2020 ! 2)
              = Some (d / (c + 0.05)))"
proof -
  have a: "map dep_prev (plot_actionable ex_need_2020 ex_psy_2020 2020)
     = [Some 10, Some 10, Some 20]" by code_simp
  have b: "map psy_per100k (plot_actionable ex_need_2020 ex_psy_2020 2020)
     = [Some 1, Some 1, Some 10]" by code_simp
  have c: "map priority_index (plot_actionable ex_need_2020 ex_psy_2020 2020)
     = [Some (10 / 1.05), Some (10 / 1.05), Some (20 / 10.05)]" by code_simp
  from a have "length (plot_actionable ex_need_2020 ex_psy_2020 2020) = 3"
    by (metis length_map length_Cons list.size(3) numeral_3_eq_3)
  then have "plot_actionable ex_need_2020 ex_psy_2020 2020 ! 2
      \<in> set (plot_actionable ex_need_2020 ex_psy_2020 2020)" by simp
  with priority_index_formula [of ex_need_2020 ex_psy_2020 2020]
  have "\<exists>d c. dep_prev (plot_actionable ex_need_2020 ex_psy_2020 2020 ! 2) = Some d
          \<and> psy_per100k (plot_actionable ex_need_2020 ex_psy_2020 2020 ! 2) = Some c
          \<and> priority_index (plot_actionable ex_need_2020 ex_psy_2020 2020 ! 2)
              = Some (d / (c + 0.05))" by blast
  with a b c show ?thesis by (intro conjI)
qed

text \<open>
  Claim C6. The frame returned is the inner join of the need rows of the year with the
  capacity rows of the year whose value is present and positive, so a capacity record
  with a missing, zero or negative value has no part in it, whatever need record
  matches it; every row returned has a capacity above zero. The function has no
  failing branch: these drops only shorten the result.
\<close>

theorem capacity_excluded:
  "plot_actionable need_all psy yr
     = map with_priority_index (merge_inner (need_y need_all yr) (usable_capacity psy yr))
   \<and> (\<forall>r \<in> set (plot_actionable need_all psy yr). \<exists>c. psy_per100k r = Some c \<and> 0 < c)"
proof -
  have "\<forall>r \<in> set (plot_actionable need_all psy yr). \<exists>c. psy_per100k r = Some c \<and> 0 < c"
  proof
    fix r assume "r \<in> set (plot_actionable need_all psy yr)"
    from plot_actionable_row [OF this] show "\<exists>c. psy_per100k r = Some c \<and> 0 < c" by auto
  qed
  then show ?thesis by (simp add: plot_actionable_def merged_frame_eq)
qed

theorem capacity_excluded_witness:
  "''E'' \<in> locations_in ex_need_2020 2020 \<and> ''E'' \<in> locations_in ex_psy_2020 2020
   \<and> map location (usable_capacity ex_psy_2020 2020) = [''B'', ''A'', ''C'', ''D'', ''F'']
   \<and> map location (plot_actionable ex_need_2020 ex_psy_2020 2020) = [''B'', ''A'', ''C'']
   \<and> map psy_per100k (plot_actionable ex_need_2020 ex_psy_2020 2020)
       = [Some 1, Some 1, Some 10]"
proof -
  have a: "''E'' \<in> locations_in ex_need_2020 2020 \<and> ''E'' \<in> locations_in ex_psy_2020 2020"
    by code_simp
  have b: "map location (usable_capacity ex_psy_2020 2020) = [''B'', ''A'', ''C'', ''D'', ''F'']"
    by code_simp
  have c: "map with_priority_index
        (merge_inner (need_y ex_need_2020 2020) (usable_capacity ex_psy_2020 2020))
      = [\<lparr>location = ''B'', year = Some 2020, psy_per100k = Some 1, dep_prev = Some 10,
           priority_index = Some (200 / 21)\<rparr>,
         \<lparr>location = ''A'', year = Some 2020, psy_per100k = Some 1, dep_prev = Some 10,
           priority_index = Some (200 / 21)\<rparr>,
         \<lparr>location = ''C'', year = Some 2020, psy_per100k = Some 10, dep_prev = Some 20,
           priority_index = Some (400 / 201)\<rparr>]"
    by code_simp
  from capacity_excluded [of ex_need_2020 ex_psy_2020 2020] c
  have "plot_actionable ex_need_2020 ex_psy_2020 2020
      = [\<lparr>location = ''B'', year = Some 2020, psy_per100k = Some 1, dep_prev = Some 10,
           priority_index = Some (200 / 21)\<rparr>,
         \<lparr>location = ''A'', year = Some 2020, psy_per100k = Some 1, dep_prev = Some 10,
           priority_index = Some (200 / 21)\<rparr>,
         \<lparr>location = ''C'', year = Some 2020, psy_per100k = Some 10, dep_prev = Some 20,
           priority_index = Some (400 / 201)\<rparr>]"
    by simp
  with a b show ?thesis by simp
qed

lemma priority_index_of_exact:
  "y + eps \<noteq> 0 \<Longrightarrow>
   priority_index_of (Some x) (Some y) = Some (priority_index_fl (\<lambda>v. v) x y)"
  by (simp add: priority_index_of_def priority_index_fl_def)

lemma monotone_rounding_exact: "monotone_rounding (\<lambda>v. v)"
  by (simp add: monotone_rounding_def mono_def eps_def)

lemma monotone_rounding_round_milli: "monotone_rounding round_milli"
proof -
  have "mono round_milli"
    by (auto simp: mono_def round_milli_def intro!: divide_right_mono round_mono)
  moreover have e: "round_milli eps = eps" by (simp add: round_milli_def eps_def)
  moreover have "0 < eps" by (simp add: eps_def)
  ultimately show ?thesis unfolding monotone_rounding_def e by simp
qed

lemma rounded_denominator_positive:
  assumes "monotone_rounding rnd" and "0 < c"
  shows "0 < rnd (c + rnd eps)"
proof -
  from assms(1) have m: "mono rnd" and i: "rnd (rnd eps) = rnd eps" and p: "0 < rnd eps"
    by (simp_all add: monotone_rounding_def)
  from assms(2) have "rnd eps \<le> c + rnd eps" by simp
  with m have "rnd (rnd eps) \<le> rnd (c + rnd eps)" by (rule monoD)
  with i p show ?thesis by simp
qed

text \<open>
  Claim C7, as amended. Under every monotone rounding of the arithmetic of line 177,
  exact arithmetic and round-to-nearest among them: for a fixed need value of at least
  zero the priority index never increases as the capacity grows over the positive
  capacities, and for a fixed positive capacity it never decreases as the need value
  grows. The order is not strict.
\<close>

theorem priority_index_weakly_monotone:
  assumes "monotone_rounding rnd"
  shows "(0 \<le> n \<and> 0 < c1 \<and> c1 \<le> c2 \<longrightarrow>
            priority_index_fl rnd n c2 \<le> priority_index_fl rnd n c1)
       \<and> (0 < c \<and> n1 \<le> n2 \<longrightarrow>
            priority_index_fl rnd n1 c \<le> priority_index_fl rnd n2 c)"
proof (intro conjI impI)
  from assms have m: "mono rnd" by (simp add: monotone_rounding_def)
  {
    assume a: "0 \<le> n \<and> 0 < c1 \<and> c1 \<le> c2"
    then have "c1 + rnd eps \<le> c2 + rnd eps" by simp
    with m have le: "rnd (c1 + rnd eps) \<le> rnd (c2 + rnd eps)" by (rule monoD)
    from a have p1: "0 < rnd (c1 + rnd eps)"
      by (intro rounded_denominator_positive [OF assms]) simp
    from a have p2: "0 < rnd (c2 + rnd eps)"
      by (intro rounded_denominator_positive [OF assms]) simp
    from le p1 p2 a have "n / rnd (c2 + rnd eps) \<le> n / rnd (c1 + rnd eps)"
      by (intro divide_left_mono) simp_all
    with m show "priority_index_fl rnd n c2 \<le> priority_index_fl rnd n c1"
      unfolding priority_index_fl_def by (rule monoD)
  }
  {
    assume a: "0 < c \<and> n1 \<le> n2"
    then have "0 < rnd (c + rnd eps)"
      by (intro rounded_denominator_positive [OF assms]) simp
    with a have "n1 / rnd (c + rnd eps) \<le> n2 / rnd (c + rnd eps)"
      by (intro divide_right_mono) simp_all
    with m show "priority_index_fl rnd n1 c \<le> priority_index_fl rnd n2 c"
      unfolding priority_index_fl_def by (rule monoD)
  }
qed

text \<open>
  On the three-decimal format: the index falls from capacity 1 to capacity 10 and rises
  from need 10 to need 20, and the capacities 1 and 1.0001 give the same index.
\<close>

theorem priority_index_weakly_monotone_witness:
  "monotone_rounding round_milli
   \<and> priority_index_fl round_milli 20 10 \<le> priority_index_fl round_milli 20 1
   \<and> priority_index_fl round_milli 20 1.0001 \<le> priority_index_fl round_milli 20 1
   \<and> priority_index_fl round_milli 10 1 \<le> priority_index_fl round_milli 20 1
   \<and> priority_index_fl round_milli 20 10 = 1.99
   \<and> priority_index_fl round_milli 10 1 = 9.524
   \<and> priority_index_fl round_milli 20 1 = 19.048
   \<and> priority_index_fl round_milli 20 1.0001 = 19.048"
proof -
  note t = priority_index_weakly_monotone [OF monotone_rounding_round_milli]
  from t [of 20 1 10 1 10 20]
  have a: "priority_index_fl round_milli 20 10 \<le> priority_index_fl round_milli 20 1"
    and b: "priority_index_fl round_milli 10 1 \<le> priority_index_fl round_milli 20 1"
    by simp_all
  from t [of 20 1 "1.0001" 1 10 20]
  have c: "priority_index_fl round_milli 20 1.0001 \<le> priority_index_fl round_milli 20 1"
    by simp
  have d: "priority_index_fl round_milli 20 10 = 1.99" by code_simp
  have e: "priority_index_fl round_milli 10 1 = 9.524" by code_simp
  have f: "priority_index_fl round_milli 20 1 = 19.048" by code_simp
  have g: "priority_index_fl round_milli 20 1.0001 = 19.048" by code_simp
  from monotone_rounding_round_milli a c b d e f g show ?thesis by (intro conjI)
qed

text \<open>
  Claim C7 as stated fails for the need value 0: the index is 0 at capacity 1 and at
  capacity 2, so it does not strictly decrease.
\<close>

theorem priority_index_zero_need_counterexample:
  "priority_index_of (Some 0) (Some 1) = Some 0 \<and> priority_index_of (Some 0) (Some 2) = Some 0"
  by (simp add: priority_index_of_def eps_def)

text \<open>
  In exact arithmetic alone the order is strict for a need value above zero; rounding
  does not keep this, as the tie on the three-decimal format shows.
\<close>

lemma priority_index_of_strict_exact:
  "(0 < n \<and> 0 < c1 \<and> c1 < c2 \<longrightarrow>
      (\<exists>p1 p2. priority_index_of (Some n) (Some c1) = Some p1
             \<and> priority_index_of (Some n) (Some c2) = Some p2 \<and> p2 < p1))
   \<and> (0 < c \<and> n1 < n2 \<longrightarrow>
      (\<exists>p1 p2. priority_index_of (Some n1) (Some c) = Some p1
             \<and> priority_index_of (Some n2) (Some c) = Some p2 \<and> p1 < p2))"
  by (auto simp: priority_index_of_def eps_def frac_less2 divide_strict_right_mono)

text \<open>
  Claim C8. A location that has no need row of the chosen year, or no capacity row of
  the chosen year, is the location of no row of the joined set.
\<close>

theorem join_is_inner:
  assumes "loc \<notin> locations_in need_all yr \<or> loc \<notin> locations_in psy yr"
  shows "loc \<notin> location ` set (plot_actionable need_all psy yr)"
proof
  assume "loc \<in> location ` set (plot_actionable need_all psy yr)"
  then obtain r where r: "r \<in> set (plot_actionable need_all psy yr)" and l: "location r = loc"
    by auto
  from plot_actionable_row [OF r] l
  have "loc \<in> locations_in need_all yr \<and> loc \<in> locations_in psy yr"
    by (auto simp: locations_in_def image_iff)
  with assms show False by simp
qed

theorem join_is_inner_witness:
  "''G'' \<in> locations_in ex_need_2020 2020 \<and> ''G'' \<notin> locations_in ex_psy_2020 2020
   \<and> ''F'' \<notin> locations_in ex_need_2020 2020 \<and> ''F'' \<in> locations_in ex_psy_2020 2020
   \<and> ''G'' \<notin> location ` set (plot_actionable ex_need_2020 ex_psy_2020 2020)
   \<and> ''F'' \<notin> location ` set (plot_actionable ex_need_2020 ex_psy_2020 2020)"
proof -
  have a: "''G'' \<in> locations_in ex_need_2020 2020 \<and> ''G'' \<notin> locations_in ex_psy_2020 2020
      \<and> ''F'' \<notin> locations_in ex_need_2020 2020 \<and> ''F'' \<in> locations_in ex_psy_2020 2020"
    by code_simp
  then have g: "''G'' \<notin> locations_in ex_need_2020 2020 \<or> ''G'' \<notin> locations_in ex_psy_2020 2020"
    and f: "''F'' \<notin> locations_in ex_need_2020 2020 \<or> ''F'' \<notin> locations_in ex_psy_2020 2020"
    by simp_all
  from g have "''G'' \<notin> location ` set (plot_actionable ex_need_2020 ex_psy_2020 2020)"
    by (rule join_is_inner)
  moreover from f
  have "''F'' \<notin> location ` set (plot_actionable ex_need_2020 ex_psy_2020 2020)"
    by (rule join_is_inner)
  ultimately show ?thesis using a by (intro conjI) simp_all
qed

section \<open>Micro chart\<close>




end
